theory Spec2Isabelle
  imports Main "HOL-Library.Multiset" "HOL-Library.Char_ord" "HOL-Library.List_Lexorder"
begin

section \<open>Snippet catalog: data model\<close>

text \<open>
  The tables of \<^verbatim>\<open>config/database.js\<close>. A table is the list of its rows in
  rowid order; \<open>snippets_seq\<close> is the largest rowid that AUTOINCREMENT has handed out for
  \<open>snippets\<close>. Columns that the schema leaves nullable are options (\<open>None\<close> is SQL
  NULL); the BOOLEAN columns hold integers, as SQLite stores them, and the queries compare
  them with \<open>0\<close> and \<open>1\<close>. A \<open>char\<close> stands for one UTF-16 code unit below 256,
  so the model covers texts over the Latin-1 range. \<open>created_at\<close> is the
  \<^verbatim>\<open>CURRENT_TIMESTAMP\<close> of the insert, as a number of seconds.
\<close>

record user =
  u_id :: int
  u_username :: string
  u_is_admin :: int
  u_is_approved :: int

record category =
  c_id :: int
  c_name :: string
  c_slug :: string

record language =
  l_id :: int
  l_name :: string
  l_slug :: string

record snippet =
  s_id :: int
  s_title :: string
  s_slug :: string
  s_short_id :: "string option"
  s_description :: "string option"
  s_code :: string
  s_tags :: "string option"
  s_reference_url :: "string option"
  s_category_id :: "int option"
  s_language_id :: "int option"
  s_user_id :: "int option"
  s_is_private :: int
  s_created_at :: nat

record database =
  snippets :: "snippet list"
  snippets_seq :: int
  users :: "user list"
  categories :: "category list"
  languages :: "language list"

text \<open>
  The constraints of the schema that the queries rely on: the four primary keys, and the
  UNIQUE constraints on \<open>snippets.slug\<close> and \<open>snippets.short_id\<close> (NULLs are
  distinct from each other).
\<close>

definition wf_db :: "database \<Rightarrow> bool" where
  "wf_db db \<longleftrightarrow>
     distinct (map s_id (snippets db)) \<and>
     distinct (map s_slug (snippets db)) \<and>
     distinct (List.map_filter s_short_id (snippets db)) \<and>
     distinct (map u_id (users db)) \<and>
     distinct (map c_id (categories db)) \<and>
     distinct (map l_id (languages db))"

section \<open>Strings\<close>

text \<open>
  JavaScript's white space (what \<^verbatim>\<open>\s\<close> and \<^verbatim>\<open>trim\<close> recognise) below code unit
  256: tab, line feed, vertical tab, form feed, carriage return, space and the no-break
  space.
\<close>

definition is_space :: "char \<Rightarrow> bool" where
  "is_space c \<longleftrightarrow> (of_char c :: nat) \<in> {9, 10, 11, 12, 13, 32, 160}"

text \<open>The class \<^verbatim>\<open>\w\<close>: ASCII letters, digits and the underscore.\<close>

definition is_word :: "char \<Rightarrow> bool" where
  "is_word c \<longleftrightarrow>
     (let n = (of_char c :: nat)
      in (48 \<le> n \<and> n \<le> 57) \<or> (65 \<le> n \<and> n \<le> 90) \<or> n = 95 \<or> (97 \<le> n \<and> n \<le> 122))"

text \<open>
  \<^verbatim>\<open>String.prototype.toLowerCase\<close> on code units below 256: the ASCII capitals and
  the Latin-1 capitals \<open>U+00C0\<close> to \<open>U+00DE\<close> (the multiplication sign \<open>U+00D7\<close> apart) move
  up by 32.
\<close>

definition ascii_upper :: string where
  "ascii_upper = ''ABCDEFGHIJKLMNOPQRSTUVWXYZ''"

definition ascii_lower :: string where
  "ascii_lower = ''abcdefghijklmnopqrstuvwxyz''"

definition latin1_upper :: string where
  "latin1_upper =
     [CHR 0xC0, CHR 0xC1, CHR 0xC2, CHR 0xC3, CHR 0xC4, CHR 0xC5, CHR 0xC6, CHR 0xC7,
      CHR 0xC8, CHR 0xC9, CHR 0xCA, CHR 0xCB, CHR 0xCC, CHR 0xCD, CHR 0xCE, CHR 0xCF,
      CHR 0xD0, CHR 0xD1, CHR 0xD2, CHR 0xD3, CHR 0xD4, CHR 0xD5, CHR 0xD6, CHR 0xD8,
      CHR 0xD9, CHR 0xDA, CHR 0xDB, CHR 0xDC, CHR 0xDD, CHR 0xDE]"

definition latin1_lower :: string where
  "latin1_lower =
     [CHR 0xE0, CHR 0xE1, CHR 0xE2, CHR 0xE3, CHR 0xE4, CHR 0xE5, CHR 0xE6, CHR 0xE7,
      CHR 0xE8, CHR 0xE9, CHR 0xEA, CHR 0xEB, CHR 0xEC, CHR 0xED, CHR 0xEE, CHR 0xEF,
      CHR 0xF0, CHR 0xF1, CHR 0xF2, CHR 0xF3, CHR 0xF4, CHR 0xF5, CHR 0xF6, CHR 0xF8,
      CHR 0xF9, CHR 0xFA, CHR 0xFB, CHR 0xFC, CHR 0xFD, CHR 0xFE]"

definition lower_char :: "char \<Rightarrow> char" where
  "lower_char c =
     (case map_of (zip (ascii_upper @ latin1_upper) (ascii_lower @ latin1_lower)) c of
        None \<Rightarrow> c
      | Some d \<Rightarrow> d)"

definition toLowerCase :: "string \<Rightarrow> string" where
  "toLowerCase s = map lower_char s"

definition trim :: "string \<Rightarrow> string" where
  "trim s = rev (dropWhile is_space (rev (dropWhile is_space s)))"

text \<open>\<^verbatim>\<open>.replace(/\s+/g, "-")\<close>: every maximal run of white space becomes one hyphen.\<close>

function spaces_to_hyphen :: "string \<Rightarrow> string" where
  "spaces_to_hyphen [] = []"
| "spaces_to_hyphen (c # cs) =
     (if is_space c then CHR ''-'' # spaces_to_hyphen (dropWhile is_space cs)
      else c # spaces_to_hyphen cs)"
  by pat_completeness auto
termination
  by (relation "measure length") (auto simp: less_Suc_eq_le length_dropWhile_le)

text \<open>\<^verbatim>\<open>.replace(/[^\w\-]+/g, "")\<close>: only word characters and hyphens stay.\<close>

definition strip_non_word :: "string \<Rightarrow> string" where
  "strip_non_word s = filter (\<lambda>c. is_word c \<or> c = CHR ''-'') s"

text \<open>\<^verbatim>\<open>.replace(/\-\-+/g, "-")\<close>: every run of two or more hyphens becomes one.\<close>

function collapse_hyphens :: "string \<Rightarrow> string" where
  "collapse_hyphens [] = []"
| "collapse_hyphens (c # cs) =
     (if c = CHR ''-'' then CHR ''-'' # collapse_hyphens (dropWhile (\<lambda>d. d = CHR ''-'') cs)
      else c # collapse_hyphens cs)"
  by pat_completeness auto
termination
  by (relation "measure length") (auto simp: less_Suc_eq_le length_dropWhile_le)

text \<open>\<^verbatim>\<open>utils/slugify.js\<close>.\<close>

definition slugify :: "string \<Rightarrow> string" where
  "slugify text =
     collapse_hyphens (strip_non_word (spaces_to_hyphen (trim (toLowerCase text))))"

text \<open>The decimal numeral of a number, as a template literal prints \<^verbatim>\<open>Date.now()\<close>.\<close>

definition digit_char :: "nat \<Rightarrow> char" where
  "digit_char d = ''0123456789'' ! d"

fun decimal :: "nat \<Rightarrow> string" where
  "decimal n =
     (if n < 10 then [digit_char n]
      else decimal (n div 10) @ [digit_char (n mod 10)])"

declare decimal.simps [simp del]

text \<open>\<^verbatim>\<open>String.prototype.split(",")\<close>.\<close>

fun split_comma :: "string \<Rightarrow> string list" where
  "split_comma [] = [[]]"
| "split_comma (c # cs) =
     (if c = CHR '','' then [] # split_comma cs
      else (case split_comma cs of
              [] \<Rightarrow> [[c]]
            | w # ws \<Rightarrow> (c # w) # ws))"

text \<open>
  SQLite's \<^verbatim>\<open>LIKE\<close> without an escape character: \<^verbatim>\<open>%\<close> matches any run of
  characters, \<^verbatim>\<open>_\<close> any single one, and every other character matches itself up to the
  case of the ASCII letters.
\<close>

definition like_fold :: "char \<Rightarrow> char" where
  "like_fold c = (case map_of (zip ascii_upper ascii_lower) c of None \<Rightarrow> c | Some d \<Rightarrow> d)"

fun sql_like :: "string \<Rightarrow> string \<Rightarrow> bool" where
  "sql_like [] [] = True"
| "sql_like [] (c # cs) = False"
| "sql_like (p # ps) [] = (p = CHR ''%'' \<and> sql_like ps [])"
| "sql_like (p # ps) (c # cs) =
     (if p = CHR ''%'' then sql_like ps (c # cs) \<or> sql_like (p # ps) cs
      else (p = CHR ''_'' \<or> like_fold p = like_fold c) \<and> sql_like ps cs)"

text \<open>A NULL operand makes \<^verbatim>\<open>LIKE\<close> NULL, which a WHERE clause rejects.\<close>

definition like_null :: "string option \<Rightarrow> string \<Rightarrow> bool" where
  "like_null v pat = (case v of None \<Rightarrow> False | Some t \<Rightarrow> sql_like pat t)"

section \<open>The storage engine's side of a query\<close>

text \<open>
  A row of \<^verbatim>\<open>BASE_SNIPPET_QUERY\<close> before its SELECT list is applied: a snippet with
  the category, the language and the user that the three LEFT JOINs attach to it (\<open>None\<close>
  where no row of the joined table matches).
\<close>

record joined =
  j_s :: snippet
  j_c :: "category option"
  j_l :: "language option"
  j_u :: "user option"

record snippet_detail =
  d_id :: int
  d_title :: string
  d_slug :: string
  d_short_id :: "string option"
  d_description :: "string option"
  d_tags :: "string option"
  d_created_at :: nat
  d_code :: string
  d_is_private :: int
  d_category_name :: "string option"
  d_category_slug :: "string option"
  d_language_name :: "string option"
  d_language_slug :: "string option"
  d_author_name :: "string option"

definition left_join :: "('b \<Rightarrow> bool) \<Rightarrow> 'b list \<Rightarrow> 'b option list" where
  "left_join on tbl = (case filter on tbl of [] \<Rightarrow> [None] | m # ms \<Rightarrow> map Some (m # ms))"

text \<open>The FROM clause of \<^verbatim>\<open>BASE_SNIPPET_QUERY\<close>, in the order of a scan of \<open>snippets\<close>.\<close>

definition BASE_SNIPPET_QUERY :: "database \<Rightarrow> joined list" where
  "BASE_SNIPPET_QUERY db =
     concat (map (\<lambda>s.
       concat (map (\<lambda>c.
         concat (map (\<lambda>l.
           map (\<lambda>u. \<lparr>j_s = s, j_c = c, j_l = l, j_u = u\<rparr>)
             (left_join (\<lambda>u. Some (u_id u) = s_user_id s) (users db)))
           (left_join (\<lambda>l. Some (l_id l) = s_language_id s) (languages db))))
         (left_join (\<lambda>c. Some (c_id c) = s_category_id s) (categories db))))
       (snippets db))"

text \<open>The SELECT list of \<^verbatim>\<open>BASE_SNIPPET_QUERY\<close>.\<close>

definition project :: "joined \<Rightarrow> snippet_detail" where
  "project j =
     \<lparr>d_id = s_id (j_s j), d_title = s_title (j_s j), d_slug = s_slug (j_s j),
      d_short_id = s_short_id (j_s j), d_description = s_description (j_s j),
      d_tags = s_tags (j_s j), d_created_at = s_created_at (j_s j), d_code = s_code (j_s j),
      d_is_private = s_is_private (j_s j),
      d_category_name = map_option c_name (j_c j), d_category_slug = map_option c_slug (j_c j),
      d_language_name = map_option l_name (j_l j), d_language_slug = map_option l_slug (j_l j),
      d_author_name = map_option u_username (j_u j)\<rparr>"

text \<open>\<^verbatim>\<open>FROM snippets s JOIN users u ON s.user_id = u.id\<close>, the FROM clause of the counts.\<close>

definition snippets_join_users :: "database \<Rightarrow> (snippet \<times> user) list" where
  "snippets_join_users db =
     concat (map (\<lambda>s. map (\<lambda>u. (s, u)) (filter (\<lambda>u. Some (u_id u) = s_user_id s) (users db)))
       (snippets db))"

text \<open>\<^verbatim>\<open>s.is_private = 0 AND u.is_approved = 1 AND\<close>\<close>

definition PUBLIC_FILTER :: "snippet \<Rightarrow> user \<Rightarrow> bool" where
  "PUBLIC_FILTER s u \<longleftrightarrow> s_is_private s = 0 \<and> u_is_approved u = 1"

text \<open>
  A WHERE clause \<^verbatim>\<open>${PUBLIC_FILTER} cond\<close> on a row of the LEFT JOINs: where no user
  is attached, \<^verbatim>\<open>u.is_approved = 1\<close> is NULL and the row is rejected.
\<close>

definition where_public :: "(snippet \<Rightarrow> user \<Rightarrow> bool) \<Rightarrow> joined \<Rightarrow> bool" where
  "where_public cond j =
     (case j_u j of None \<Rightarrow> False | Some u \<Rightarrow> PUBLIC_FILTER (j_s j) u \<and> cond (j_s j) u)"

text \<open>
  \<^verbatim>\<open>ORDER BY s.created_at DESC\<close> is the engine's work. The statement names no second
  sort key, so all that the query fixes is that the result holds the same rows, with
  \<open>created_at\<close> never increasing; an engine is any function that keeps to this.
\<close>

type_synonym engine = "joined list \<Rightarrow> joined list"

definition created_desc :: "joined list \<Rightarrow> bool" where
  "created_desc rows = sorted_wrt (\<lambda>a b. s_created_at (j_s b) \<le> s_created_at (j_s a)) rows"

definition order_by_contract :: "engine \<Rightarrow> bool" where
  "order_by_contract eng \<longleftrightarrow> (\<forall>rows. mset (eng rows) = mset rows \<and> created_desc (eng rows))"

text \<open>
  Two engines that keep to it: one leaves rows of equal \<open>created_at\<close> in scan order, the
  other in the reverse of scan order.
\<close>

definition engine_scan_order :: engine where
  "engine_scan_order rows = sort_key (\<lambda>j. - int (s_created_at (j_s j))) rows"

definition engine_reverse_order :: engine where
  "engine_reverse_order rows = rev (sort_key (\<lambda>j. s_created_at (j_s j)) rows)"

text \<open>
  \<^verbatim>\<open>LIMIT ? OFFSET ?\<close> as SQLite reads them: a negative OFFSET is 0, a negative LIMIT
  is no limit. The page number and the page size are the integers that \<^verbatim>\<open>parseInt\<close>
  gives the controllers.
\<close>

definition sql_limit_offset :: "int \<Rightarrow> int \<Rightarrow> 'a list \<Rightarrow> 'a list" where
  "sql_limit_offset lim off rows =
     (let rest = drop (nat off) rows in if lim < 0 then rest else take (nat lim) rest)"

text \<open>
  \<^verbatim>\<open>SELECT COUNT(s.id) ... JOIN users u ... WHERE ${PUBLIC_FILTER} cond\<close> and
  \<^verbatim>\<open>${BASE_SNIPPET_QUERY} WHERE ${PUBLIC_FILTER} cond ORDER BY s.created_at DESC LIMIT ? OFFSET ?\<close>.
\<close>

definition query_count :: "database \<Rightarrow> (snippet \<Rightarrow> user \<Rightarrow> bool) \<Rightarrow> nat" where
  "query_count db cond =
     length (filter (\<lambda>(s, u). PUBLIC_FILTER s u \<and> cond s u) (snippets_join_users db))"

definition query_ordered :: "engine \<Rightarrow> database \<Rightarrow> (snippet \<Rightarrow> user \<Rightarrow> bool) \<Rightarrow> joined list" where
  "query_ordered eng db cond = eng (filter (where_public cond) (BASE_SNIPPET_QUERY db))"

definition query_page ::
  "engine \<Rightarrow> database \<Rightarrow> (snippet \<Rightarrow> user \<Rightarrow> bool) \<Rightarrow> int \<Rightarrow> int \<Rightarrow> snippet_detail list" where
  "query_page eng db cond lim off =
     map project (sql_limit_offset lim off (query_ordered eng db cond))"

section \<open>The facet queries of \<^verbatim>\<open>services/snippet.service.js\<close>\<close>

definition countAll :: "database \<Rightarrow> nat" where
  "countAll db = query_count db (\<lambda>s u. True)"

definition findPaginated :: "engine \<Rightarrow> database \<Rightarrow> int \<Rightarrow> int \<Rightarrow> snippet_detail list" where
  "findPaginated eng db page limit =
     (let offset = (page - 1) * limit in query_page eng db (\<lambda>s u. True) limit offset)"

definition countByCategory :: "database \<Rightarrow> int \<Rightarrow> nat" where
  "countByCategory db categoryId = query_count db (\<lambda>s u. s_category_id s = Some categoryId)"

definition findPaginatedByCategory ::
  "engine \<Rightarrow> database \<Rightarrow> int \<Rightarrow> int \<Rightarrow> int \<Rightarrow> snippet_detail list" where
  "findPaginatedByCategory eng db categoryId page limit =
     (let offset = (page - 1) * limit
      in query_page eng db (\<lambda>s u. s_category_id s = Some categoryId) limit offset)"

definition countByLanguage :: "database \<Rightarrow> int \<Rightarrow> nat" where
  "countByLanguage db languageId = query_count db (\<lambda>s u. s_language_id s = Some languageId)"

definition findPaginatedByLanguage ::
  "engine \<Rightarrow> database \<Rightarrow> int \<Rightarrow> int \<Rightarrow> int \<Rightarrow> snippet_detail list" where
  "findPaginatedByLanguage eng db languageId page limit =
     (let offset = (page - 1) * limit
      in query_page eng db (\<lambda>s u. s_language_id s = Some languageId) limit offset)"

definition countByAuthor :: "database \<Rightarrow> string \<Rightarrow> nat" where
  "countByAuthor db username = query_count db (\<lambda>s u. u_username u = username)"

definition findPaginatedByAuthor ::
  "engine \<Rightarrow> database \<Rightarrow> string \<Rightarrow> int \<Rightarrow> int \<Rightarrow> snippet_detail list" where
  "findPaginatedByAuthor eng db username page limit =
     (let offset = (page - 1) * limit
      in query_page eng db (\<lambda>s u. u_username u = username) limit offset)"

definition countByTag :: "database \<Rightarrow> string \<Rightarrow> nat" where
  "countByTag db tag =
     (let searchTerm = ''%'' @ tag @ ''%''
      in query_count db (\<lambda>s u. like_null (s_tags s) searchTerm))"

definition findPaginatedByTag ::
  "engine \<Rightarrow> database \<Rightarrow> string \<Rightarrow> int \<Rightarrow> int \<Rightarrow> snippet_detail list" where
  "findPaginatedByTag eng db tag page limit =
     (let offset = (page - 1) * limit; searchTerm = ''%'' @ tag @ ''%''
      in query_page eng db (\<lambda>s u. like_null (s_tags s) searchTerm) limit offset)"

definition countSearchResults :: "database \<Rightarrow> string \<Rightarrow> nat" where
  "countSearchResults db searchQuery =
     (let searchTerm = ''%'' @ searchQuery @ ''%''
      in query_count db (\<lambda>s u. sql_like searchTerm (s_title s) \<or>
           like_null (s_description s) searchTerm \<or> sql_like searchTerm (s_code s)))"

definition search :: "engine \<Rightarrow> database \<Rightarrow> string \<Rightarrow> int \<Rightarrow> int \<Rightarrow> snippet_detail list" where
  "search eng db searchQuery page limit =
     (let offset = (page - 1) * limit; searchTerm = ''%'' @ searchQuery @ ''%''
      in query_page eng db (\<lambda>s u. sql_like searchTerm (s_title s) \<or>
           like_null (s_description s) searchTerm \<or> sql_like searchTerm (s_code s)) limit offset)"

text \<open>
  \<^verbatim>\<open>findByIdentifierWithDetail\<close>: \<^verbatim>\<open>query.get\<close> hands back the first row of the
  result, or nothing. Its WHERE clause is \<^verbatim>\<open>s.slug = ? OR s.short_id = ?\<close> alone.
\<close>

definition findByIdentifierWithDetail :: "database \<Rightarrow> string \<Rightarrow> snippet_detail option" where
  "findByIdentifierWithDetail db identifier =
     (case filter (\<lambda>j. s_slug (j_s j) = identifier \<or> s_short_id (j_s j) = Some identifier)
             (BASE_SNIPPET_QUERY db) of
        [] \<Rightarrow> None
      | j # _ \<Rightarrow> Some (project j))"

text \<open>
  The six facets of the public pages, each with its value, and the count and page operation
  that \<^verbatim>\<open>controllers/public.controller.js\<close> calls for it.
\<close>

datatype facet =
  NoFilter | Category int | Language int | Author string | Tag string | Search string

fun count_facet :: "database \<Rightarrow> facet \<Rightarrow> nat" where
  "count_facet db NoFilter = countAll db"
| "count_facet db (Category i) = countByCategory db i"
| "count_facet db (Language i) = countByLanguage db i"
| "count_facet db (Author a) = countByAuthor db a"
| "count_facet db (Tag t) = countByTag db t"
| "count_facet db (Search q) = countSearchResults db q"

fun page_facet :: "engine \<Rightarrow> database \<Rightarrow> facet \<Rightarrow> int \<Rightarrow> int \<Rightarrow> snippet_detail list" where
  "page_facet eng db NoFilter page limit = findPaginated eng db page limit"
| "page_facet eng db (Category i) page limit = findPaginatedByCategory eng db i page limit"
| "page_facet eng db (Language i) page limit = findPaginatedByLanguage eng db i page limit"
| "page_facet eng db (Author a) page limit = findPaginatedByAuthor eng db a page limit"
| "page_facet eng db (Tag t) page limit = findPaginatedByTag eng db t page limit"
| "page_facet eng db (Search q) page limit = search eng db q page limit"

text \<open>\<^verbatim>\<open>Math.ceil(totalItems / ITEMS_PER_PAGE)\<close> of the controllers, on integers.\<close>

definition totalPages :: "nat \<Rightarrow> int \<Rightarrow> int" where
  "totalPages totalItems itemsPerPage = - ((- int totalItems) div itemsPerPage)"

subsection \<open>Visibility and membership in a facet\<close>

text \<open>
  The owning user of a snippet, the visibility predicate of the specification (the snippet
  is not private and its owning user is approved) and the condition that each facet adds.
\<close>

definition owner :: "database \<Rightarrow> snippet \<Rightarrow> user option" where
  "owner db s = find (\<lambda>u. Some (u_id u) = s_user_id s) (users db)"

definition visible :: "database \<Rightarrow> snippet \<Rightarrow> bool" where
  "visible db s \<longleftrightarrow>
     s_is_private s = 0 \<and> (case owner db s of None \<Rightarrow> False | Some u \<Rightarrow> u_is_approved u = 1)"

fun facet_cond :: "facet \<Rightarrow> snippet \<Rightarrow> user \<Rightarrow> bool" where
  "facet_cond NoFilter s u = True"
| "facet_cond (Category i) s u = (s_category_id s = Some i)"
| "facet_cond (Language i) s u = (s_language_id s = Some i)"
| "facet_cond (Author a) s u = (u_username u = a)"
| "facet_cond (Tag t) s u = like_null (s_tags s) (''%'' @ t @ ''%'')"
| "facet_cond (Search q) s u =
     (sql_like (''%'' @ q @ ''%'') (s_title s) \<or> like_null (s_description s) (''%'' @ q @ ''%'') \<or>
      sql_like (''%'' @ q @ ''%'') (s_code s))"

definition in_facet :: "database \<Rightarrow> facet \<Rightarrow> snippet \<Rightarrow> bool" where
  "in_facet db f s = (case owner db s of None \<Rightarrow> False | Some u \<Rightarrow> facet_cond f s u)"

text \<open>
  Under the primary keys every snippet has one row in \<^verbatim>\<open>BASE_SNIPPET_QUERY\<close>, and a
  WHERE clause \<^verbatim>\<open>${PUBLIC_FILTER} cond\<close> selects a snippet through its owning user.
\<close>

definition join_row :: "database \<Rightarrow> snippet \<Rightarrow> joined" where
  "join_row db s =
     \<lparr>j_s = s,
      j_c = find (\<lambda>c. Some (c_id c) = s_category_id s) (categories db),
      j_l = find (\<lambda>l. Some (l_id l) = s_language_id s) (languages db),
      j_u = owner db s\<rparr>"

definition selected :: "database \<Rightarrow> (snippet \<Rightarrow> user \<Rightarrow> bool) \<Rightarrow> snippet \<Rightarrow> bool" where
  "selected db cond s =
     (case owner db s of None \<Rightarrow> False | Some u \<Rightarrow> PUBLIC_FILTER s u \<and> cond s u)"

section \<open>Writes of \<^verbatim>\<open>services/snippet.service.js\<close>\<close>

text \<open>
  What a call reads from outside the database: \<^verbatim>\<open>Date.now()\<close> in milliseconds,
  the token that \<^verbatim>\<open>uid.rnd()\<close> draws, and the \<^verbatim>\<open>CURRENT_TIMESTAMP\<close> that the
  insert stores in \<open>created_at\<close>.
\<close>

record env =
  date_now :: nat
  uid_rnd :: string
  current_timestamp :: nat

text \<open>
  The object a caller hands to \<open>create\<close> and \<open>update\<close>. A property that the caller left
  undefined is \<open>None\<close>; the callers supply \<open>title\<close> and \<open>code\<close> as strings.
\<close>

record snippetData =
  sd_title :: string
  sd_description :: "string option"
  sd_code :: string
  sd_tags :: "string option"
  sd_category_id :: "int option"
  sd_reference_url :: "string option"
  sd_language_id :: "int option"
  sd_user_id :: "int option"
  sd_is_private :: "int option"

text \<open>The user of the session, \<^verbatim>\<open>req.session.user\<close>.\<close>

record actor =
  a_id :: int
  a_is_admin :: bool

datatype error = SnippetNotFound | ConstraintFailed

text \<open>
  \<^verbatim>\<open>category_id || null\<close> on a number: 0 is falsy. Below, \<open>ident\<close> is the parameter
  that the source calls \<^verbatim>\<open>id\<close>.
\<close>

definition or_null :: "int option \<Rightarrow> int option" where
  "or_null v = (case v of None \<Rightarrow> None | Some i \<Rightarrow> if i = 0 then None else Some i)"

definition findById :: "database \<Rightarrow> int \<Rightarrow> snippet option" where
  "findById db ident = find (\<lambda>s. s_id s = ident) (snippets db)"

definition next_rowid :: "database \<Rightarrow> int" where
  "next_rowid db = fold max (map s_id (snippets db)) (snippets_seq db) + 1"

text \<open>
  \<open>create\<close> resolves to the \<open>lastID\<close> of the insert. The insert is rejected where it
  would break a UNIQUE constraint (\<open>slug\<close>, \<open>short_id\<close>).
\<close>

definition create :: "env \<Rightarrow> database \<Rightarrow> snippetData \<Rightarrow> error + (int \<times> database)" where
  "create env db snippetData =
     (let is_private = (case sd_is_private snippetData of None \<Rightarrow> 0 | Some p \<Rightarrow> p);
          slug = slugify (sd_title snippetData);
          shortId = uid_rnd env;
          slugExists = (\<exists>s \<in> set (snippets db). s_slug s = slug);
          slug = (if slugExists then slug @ ''-'' @ decimal (date_now env) else slug);
          row = \<lparr>s_id = next_rowid db, s_title = sd_title snippetData, s_slug = slug,
                 s_short_id = Some shortId, s_description = sd_description snippetData,
                 s_code = sd_code snippetData, s_tags = sd_tags snippetData,
                 s_reference_url = sd_reference_url snippetData,
                 s_category_id = or_null (sd_category_id snippetData),
                 s_language_id = or_null (sd_language_id snippetData),
                 s_user_id = sd_user_id snippetData, s_is_private = is_private,
                 s_created_at = current_timestamp env\<rparr>
      in if \<exists>s \<in> set (snippets db). s_slug s = slug \<or> s_short_id s = Some shortId
         then Inl ConstraintFailed
         else Inr (s_id row, db\<lparr>snippets := snippets db @ [row], snippets_seq := s_id row\<rparr>))"

text \<open>
  \<open>update\<close> resolves to the number of rows that the UPDATE changed. The rows it reaches
  are those of the WHERE clause: \<^verbatim>\<open>id = ?\<close>, and \<^verbatim>\<open>AND user_id = ?\<close> for a user who is
  not an admin.
\<close>

definition reaches :: "int \<Rightarrow> actor \<Rightarrow> snippet \<Rightarrow> bool" where
  "reaches ident user s \<longleftrightarrow> s_id s = ident \<and> (a_is_admin user \<or> s_user_id s = Some (a_id user))"

definition update ::
  "env \<Rightarrow> database \<Rightarrow> int \<Rightarrow> actor \<Rightarrow> snippetData \<Rightarrow> error + (nat \<times> database)" where
  "update env db ident user snippetData =
     (let is_private = (case sd_is_private snippetData of None \<Rightarrow> 0 | Some p \<Rightarrow> p)
      in case findById db ident of
           None \<Rightarrow> Inl SnippetNotFound
         | Some currentSnippet \<Rightarrow>
             (let finalSlug =
                    (if sd_title snippetData \<noteq> s_title currentSnippet
                     then (let newSlugCandidate = slugify (sd_title snippetData);
                               conflictingSnippet =
                                 (\<exists>s \<in> set (snippets db). s_slug s = newSlugCandidate \<and> s_id s \<noteq> ident)
                           in if conflictingSnippet
                              then newSlugCandidate @ ''-'' @ decimal (date_now env)
                              else newSlugCandidate)
                     else s_slug currentSnippet);
                  changes = length (filter (reaches ident user) (snippets db))
              in if 0 < changes \<and> (\<exists>s \<in> set (snippets db). s_id s \<noteq> ident \<and> s_slug s = finalSlug)
                 then Inl ConstraintFailed
                 else Inr (changes,
                   db\<lparr>snippets :=
                     map (\<lambda>s. if reaches ident user s
                          then s\<lparr>s_title := sd_title snippetData,
                                 s_description := sd_description snippetData,
                                 s_code := sd_code snippetData, s_tags := sd_tags snippetData,
                                 s_category_id := or_null (sd_category_id snippetData),
                                 s_reference_url := sd_reference_url snippetData,
                                 s_language_id := or_null (sd_language_id snippetData),
                                 s_slug := finalSlug, s_is_private := is_private\<rparr>
                          else s) (snippets db)\<rparr>)))"

text \<open>\<open>remove\<close> resolves to the number of rows that the DELETE removed.\<close>

definition remove :: "database \<Rightarrow> int \<Rightarrow> actor \<Rightarrow> nat \<times> database" where
  "remove db ident user =
     (length (filter (reaches ident user) (snippets db)),
      db\<lparr>snippets := filter (\<lambda>s. \<not> reaches ident user s) (snippets db)\<rparr>)"

section \<open>\<^verbatim>\<open>createSnippet\<close> of the API controller\<close>

text \<open>
  The JSON body of the request. The controller reads seven of its properties; \<open>b_is_private\<close>
  stands for an \<^verbatim>\<open>is_private\<close> property that a client may send along.
\<close>

record api_body =
  b_title :: "string option"
  b_description :: "string option"
  b_code :: "string option"
  b_tags :: "string option"
  b_category_id :: "int option"
  b_language_id :: "int option"
  b_reference_url :: "string option"
  b_is_private :: "int option"

datatype api_response = Status400 | Status201 int | Failed error

definition createSnippet :: "env \<Rightarrow> database \<Rightarrow> int \<Rightarrow> api_body \<Rightarrow> api_response \<times> database" where
  "createSnippet env db userId body =
     (case (b_title body, b_code body) of
        (Some title, Some code) \<Rightarrow>
          if title = [] \<or> code = [] then (Status400, db)
          else (let snippetData =
                      \<lparr>sd_title = title, sd_description = b_description body, sd_code = code,
                       sd_tags = b_tags body, sd_category_id = b_category_id body,
                       sd_reference_url = b_reference_url body,
                       sd_language_id = b_language_id body, sd_user_id = Some userId,
                       sd_is_private = None\<rparr>
                in case create env db snippetData of
                     Inl e \<Rightarrow> (Failed e, db)
                   | Inr (lastID, db') \<Rightarrow> (Status201 lastID, db'))
      | _ \<Rightarrow> (Status400, db))"

section \<open>\<^verbatim>\<open>findAllTags\<close>\<close>

text \<open>
  \<open>tagCounts\<close> is a plain JavaScript object, so reading \<^verbatim>\<open>tagCounts[tag]\<close> also finds
  what the object inherits from \<^verbatim>\<open>Object.prototype\<close>. The values that can turn up:
\<close>

datatype jsval =
  JUndefined | JNaN | JNum nat | JStr string | JNativeFunction string | JObjectPrototype

text \<open>The own properties of \<open>tagCounts\<close>, in the order they were added.\<close>

type_synonym js_object = "(string \<times> jsval) list"

text \<open>The methods of \<^verbatim>\<open>Object.prototype\<close> in Node, each under its own name.\<close>

definition object_prototype_methods :: "string list" where
  "object_prototype_methods =
     [''__defineGetter__'', ''__defineSetter__'', ''hasOwnProperty'', ''__lookupGetter__'',
      ''__lookupSetter__'', ''isPrototypeOf'', ''propertyIsEnumerable'', ''toString'',
      ''valueOf'', ''toLocaleString'']"

definition js_get :: "js_object \<Rightarrow> string \<Rightarrow> jsval" where
  "js_get obj k =
     (case map_of obj k of
        Some v \<Rightarrow> v
      | None \<Rightarrow>
          if k = ''constructor'' then JNativeFunction ''Object''
          else if k = ''__proto__'' then JObjectPrototype
          else if k \<in> set object_prototype_methods then JNativeFunction k
          else JUndefined)"

text \<open>
  An assignment \<^verbatim>\<open>tagCounts[k] = v\<close>. Under the key \<^verbatim>\<open>__proto__\<close> it runs the setter
  of \<^verbatim>\<open>Object.prototype\<close>, which does nothing for a value that is not an object.
\<close>

definition js_set :: "js_object \<Rightarrow> string \<Rightarrow> jsval \<Rightarrow> js_object" where
  "js_set obj k v =
     (if k = ''__proto__'' then obj
      else if k \<in> fst ` set obj then map (\<lambda>(k', v'). if k' = k then (k', v) else (k', v')) obj
      else obj @ [(k, v)])"

text \<open>\<^verbatim>\<open>v || 0\<close>\<close>

definition or_zero :: "jsval \<Rightarrow> jsval" where
  "or_zero v =
     (if v = JUndefined \<or> v = JNaN \<or> v = JNum 0 \<or> v = JStr [] then JNum 0 else v)"

text \<open>\<^verbatim>\<open>v + 1\<close>: a number is incremented, everything else is printed and \<open>1\<close> appended.\<close>

definition plus_one :: "jsval \<Rightarrow> jsval" where
  "plus_one v =
     (case v of
        JUndefined \<Rightarrow> JNaN
      | JNaN \<Rightarrow> JNaN
      | JNum n \<Rightarrow> JNum (n + 1)
      | JStr t \<Rightarrow> JStr (t @ ''1'')
      | JNativeFunction f \<Rightarrow> JStr (''function '' @ f @ ''() { [native code] }'' @ ''1'')
      | JObjectPrototype \<Rightarrow> JStr (''[object Object]'' @ ''1''))"

record tag_count =
  t_name :: string
  t_count :: jsval

definition count_tag :: "string \<Rightarrow> js_object \<Rightarrow> js_object" where
  "count_tag tag tagCounts =
     (let trimmedTag = trim tag
      in if trimmedTag \<noteq> []
         then js_set tagCounts trimmedTag (plus_one (or_zero (js_get tagCounts trimmedTag)))
         else tagCounts)"

definition findAllTags :: "database \<Rightarrow> tag_count list" where
  "findAllTags db =
     (let rows = List.map_filter
            (\<lambda>(s, u). if PUBLIC_FILTER s u \<and> s_tags s \<noteq> None \<and> s_tags s \<noteq> Some [] then s_tags s else None)
            (snippets_join_users db);
          tagCounts = fold (\<lambda>row. fold count_tag (split_comma row)) rows [];
          sortedTags = map (\<lambda>tag. \<lparr>t_name = tag, t_count = js_get tagCounts tag\<rparr>)
            (sort (map fst tagCounts))
      in sortedTags)"

subsection \<open>Tallying, for the proofs\<close>

text \<open>
  The names that a plain object inherits; one step of the tally,
  \<^verbatim>\<open>tagCounts[t] = (tagCounts[t] || 0) + 1\<close>; and the state of \<open>tagCounts\<close> once the tokens
  \<open>seen\<close> are counted as numbers.
\<close>

definition prototype_names :: "string list" where
  "prototype_names = ''constructor'' # ''__proto__'' # object_prototype_methods"

definition bump :: "string \<Rightarrow> js_object \<Rightarrow> js_object" where
  "bump t obj = js_set obj t (plus_one (or_zero (js_get obj t)))"

definition tally :: "js_object \<Rightarrow> string list \<Rightarrow> bool" where
  "tally obj seen \<longleftrightarrow>
     distinct (map fst obj) \<and> set (map fst obj) = set seen \<and>
     (\<forall>k \<in> set seen. map_of obj k = Some (JNum (count_list seen k)))"

section \<open>The specification's wording of two algorithms\<close>

text \<open>
  The slug as the specification words it: lower-case the title, turn runs of white space
  into hyphens, strip what is neither a word character nor a hyphen, collapse repeated
  hyphens.
\<close>

definition spec_slug :: "string \<Rightarrow> string" where
  "spec_slug title = collapse_hyphens (strip_non_word (spaces_to_hyphen (toLowerCase title)))"

text \<open>
  The tag index as the specification words it: the tokens of the \<open>tags\<close> strings of the
  visible snippets (split on commas, trimmed, empty ones dropped), each name with the number
  of its occurrences, sorted by name.
\<close>

definition tag_tokens :: "database \<Rightarrow> string list" where
  "tag_tokens db =
     concat (map (\<lambda>s. case s_tags s of
                          None \<Rightarrow> []
                        | Some tags \<Rightarrow> filter (\<lambda>t. t \<noteq> []) (map trim (split_comma tags)))
       (filter (visible db) (snippets db)))"

definition spec_tag_index :: "database \<Rightarrow> tag_count list" where
  "spec_tag_index db =
     map (\<lambda>n. \<lparr>t_name = n, t_count = JNum (count_list (tag_tokens db) n)\<rparr>)
       (sort (remdups (tag_tokens db)))"

section \<open>A small catalog\<close>

text \<open>
  An approved author with two public snippets created in the same second and one private
  snippet, and an author who waits for approval.
\<close>

definition alice :: user where
  "alice = \<lparr>u_id = 1, u_username = ''alice'', u_is_admin = 0, u_is_approved = 1\<rparr>"

definition mallory :: user where
  "mallory = \<lparr>u_id = 2, u_username = ''mallory'', u_is_admin = 0, u_is_approved = 0\<rparr>"

definition shell :: category where
  "shell = \<lparr>c_id = 1, c_name = ''Shell'', c_slug = ''shell''\<rparr>"

definition hello :: snippet where
  "hello = \<lparr>s_id = 1, s_title = ''Hello World'', s_slug = ''hello-world'',
     s_short_id = Some ''Ua3xZ8fE'', s_description = None, s_code = ''echo hi'',
     s_tags = Some ''cli, script, cli'', s_reference_url = None, s_category_id = Some 1,
     s_language_id = None, s_user_id = Some 1, s_is_private = 0, s_created_at = 100\<rparr>"

definition memo :: snippet where
  "memo = \<lparr>s_id = 2, s_title = ''Notes'', s_slug = ''notes'',
     s_short_id = Some ''b7Qk2LmP'', s_description = Some ''foo'', s_code = ''ls'',
     s_tags = Some ''cli'', s_reference_url = None, s_category_id = None,
     s_language_id = None, s_user_id = Some 1, s_is_private = 0, s_created_at = 100\<rparr>"

definition secret :: snippet where
  "secret = \<lparr>s_id = 3, s_title = ''Secret'', s_slug = ''secret'',
     s_short_id = Some ''Zz91xKq0'', s_description = Some ''foobar'', s_code = ''rm'',
     s_tags = Some ''hidden'', s_reference_url = None, s_category_id = Some 1,
     s_language_id = None, s_user_id = Some 1, s_is_private = 1, s_created_at = 200\<rparr>"

definition pending :: snippet where
  "pending = \<lparr>s_id = 4, s_title = ''Pending'', s_slug = ''pending'',
     s_short_id = Some ''p0Nd1nGx'', s_description = None, s_code = ''pwd'',
     s_tags = Some ''draft'', s_reference_url = None, s_category_id = None,
     s_language_id = None, s_user_id = Some 2, s_is_private = 0, s_created_at = 300\<rparr>"

definition catalog :: database where
  "catalog = \<lparr>snippets = [hello, memo, secret, pending], snippets_seq = 4,
     users = [alice, mallory], categories = [shell], languages = []\<rparr>"

text \<open>A catalog whose one snippet, public and of an approved author, is tagged \<open>constructor\<close>.\<close>

definition ctor_catalog :: database where
  "ctor_catalog = \<lparr>snippets = [hello\<lparr>s_tags := Some ''constructor''\<rparr>], snippets_seq = 1,
     users = [alice], categories = [shell], languages = []\<rparr>"

definition empty_catalog :: database where
  "empty_catalog = \<lparr>snippets = [], snippets_seq = 0, users = [alice], categories = [],
     languages = []\<rparr>"

text \<open>
  Two calls of \<open>create\<close> within one millisecond, each with the title \<open>Hello World\<close>, and
  the catalogs they leave.
\<close>

definition titled :: "string \<Rightarrow> snippetData" where
  "titled t = \<lparr>sd_title = t, sd_description = None, sd_code = ''echo hi'', sd_tags = None,
     sd_category_id = None, sd_reference_url = None, sd_language_id = None,
     sd_user_id = Some 1, sd_is_private = None\<rparr>"

definition first_call :: env where
  "first_call = \<lparr>date_now = 1700000000123, uid_rnd = ''AbCd1234'',
     current_timestamp = 1700000000\<rparr>"

definition second_call :: env where
  "second_call = \<lparr>date_now = 1700000000123, uid_rnd = ''WxYz5678'',
     current_timestamp = 1700000000\<rparr>"

definition after_call :: "error + ('a \<times> database) \<Rightarrow> database" where
  "after_call r = (case r of Inl e \<Rightarrow> empty_catalog | Inr (i, db) \<Rightarrow> db)"

definition once :: database where
  "once = after_call (create first_call empty_catalog (titled ''Hello World''))"

definition twice :: database where
  "twice = after_call (create second_call once (titled ''Hello World''))"

text \<open>The sessions of the two authors; neither is an admin.\<close>

definition alice_session :: actor where
  "alice_session = \<lparr>a_id = 1, a_is_admin = False\<rparr>"

definition mallory_session :: actor where
  "mallory_session = \<lparr>a_id = 2, a_is_admin = False\<rparr>"

text \<open>A request body that asks for a private snippet.\<close>

definition private_body :: api_body where
  "private_body = \<lparr>b_title = Some ''Mine'', b_description = None, b_code = Some ''id'',
     b_tags = None, b_category_id = None, b_language_id = None, b_reference_url = None,
     b_is_private = Some 1\<rparr>"

lemmas string_defs =
  slugify_def spec_slug_def toLowerCase_def lower_char_def trim_def is_space_def
  strip_non_word_def is_word_def ascii_upper_def ascii_lower_def latin1_upper_def
  latin1_lower_def digit_char_def like_fold_def like_null_def

lemmas catalog_defs =
  catalog_def ctor_catalog_def empty_catalog_def alice_def mallory_def shell_def hello_def
  memo_def secret_def pending_def

lemmas query_defs =
  BASE_SNIPPET_QUERY_def left_join_def project_def snippets_join_users_def PUBLIC_FILTER_def
  where_public_def sql_limit_offset_def query_count_def query_ordered_def query_page_def
  engine_scan_order_def engine_reverse_order_def totalPages_def owner_def visible_def
  in_facet_def join_row_def

lemmas write_defs =
  create_def update_def remove_def findById_def reaches_def next_rowid_def or_null_def
  createSnippet_def titled_def first_call_def second_call_def after_call_def once_def
  twice_def private_body_def alice_session_def mallory_session_def

lemmas tag_defs =
  findAllTags_def spec_tag_index_def tag_tokens_def count_tag_def js_get_def js_set_def
  or_zero_def plus_one_def object_prototype_methods_def List.map_filter_def

lemmas facet_defs =
  countAll_def findPaginated_def countByCategory_def findPaginatedByCategory_def
  countByLanguage_def findPaginatedByLanguage_def countByAuthor_def findPaginatedByAuthor_def
  countByTag_def findPaginatedByTag_def countSearchResults_def search_def

section \<open>Joins under the primary keys\<close>

lemma filter_key_find:
  "distinct (map k xs) \<Longrightarrow>
   filter (\<lambda>x. Some (k x) = a) xs = (case find (\<lambda>x. Some (k x) = a) xs of None \<Rightarrow> [] | Some x \<Rightarrow> [x])"
proof (induction xs)
  case Nil
  then show ?case by simp
next
  case (Cons x xs)
  show ?case
  proof (cases "Some (k x) = a")
    case True
    with Cons.prems have "\<forall>y\<in>set xs. Some (k y) \<noteq> a" by (auto simp: image_iff)
    then have "filter (\<lambda>x. Some (k x) = a) xs = []" by (simp add: filter_empty_conv)
    with True show ?thesis by simp
  next
    case False
    with Cons show ?thesis by simp
  qed
qed

lemma left_join_key:
  "distinct (map k xs) \<Longrightarrow>
   left_join (\<lambda>x. Some (k x) = a) xs = [find (\<lambda>x. Some (k x) = a) xs]"
  by (simp add: left_join_def filter_key_find split: option.splits)

lemma base_rows_wf:
  assumes "wf_db db"
  shows "BASE_SNIPPET_QUERY db = map (join_row db) (snippets db)"
proof -
  from assms have d: "distinct (map u_id (users db))" "distinct (map c_id (categories db))"
    "distinct (map l_id (languages db))" by (simp_all add: wf_db_def)
  show ?thesis
    unfolding BASE_SNIPPET_QUERY_def
    by (simp add: left_join_key [OF d(1)] left_join_key [OF d(2)] left_join_key [OF d(3)]
        join_row_def owner_def concat_map_singleton)
qed

lemma count_join_users:
  "distinct (map u_id us) \<Longrightarrow>
   length (filter (\<lambda>(s, u). P s u)
     (concat (map (\<lambda>s. map (\<lambda>u. (s, u)) (filter (\<lambda>u. Some (u_id u) = s_user_id s) us)) ss)))
   = length (filter (\<lambda>s. case find (\<lambda>u. Some (u_id u) = s_user_id s) us of
                             None \<Rightarrow> False | Some u \<Rightarrow> P s u) ss)"
  by (induction ss) (simp_all add: filter_key_find split: option.splits)

lemma query_count_wf:
  assumes "wf_db db"
  shows "query_count db cond = length (filter (selected db cond) (snippets db))"
proof -
  from assms have d: "distinct (map u_id (users db))" by (simp add: wf_db_def)
  show ?thesis
    unfolding query_count_def snippets_join_users_def selected_def owner_def
    by (rule count_join_users [OF d])
qed

lemma matching_wf:
  assumes "wf_db db"
  shows "filter (where_public cond) (BASE_SNIPPET_QUERY db)
       = map (join_row db) (filter (selected db cond) (snippets db))"
proof -
  have "where_public cond \<circ> join_row db = selected db cond"
    by (simp add: fun_eq_iff where_public_def join_row_def selected_def split: option.splits)
  then show ?thesis
    by (simp add: base_rows_wf [OF assms] filter_map)
qed

lemma selected_facet: "selected db (facet_cond f) s \<longleftrightarrow> visible db s \<and> in_facet db f s"
  by (auto simp: selected_def visible_def in_facet_def PUBLIC_FILTER_def split: option.splits)

lemma selected_facet_eta:
  "selected db (facet_cond f) = (\<lambda>s. visible db s \<and> in_facet db f s)"
  by (simp add: fun_eq_iff selected_facet)

lemma facet_cond_eta:
  "(\<lambda>s u. True) = facet_cond NoFilter"
  "(\<lambda>s u. s_category_id s = Some i) = facet_cond (Category i)"
  "(\<lambda>s u. s_language_id s = Some i) = facet_cond (Language i)"
  "(\<lambda>s u. u_username u = a) = facet_cond (Author a)"
  "(\<lambda>s u. like_null (s_tags s) (''%'' @ t @ ''%'')) = facet_cond (Tag t)"
  "(\<lambda>s u. sql_like (''%'' @ q @ ''%'') (s_title s) \<or> like_null (s_description s) (''%'' @ q @ ''%'') \<or>
      sql_like (''%'' @ q @ ''%'') (s_code s)) = facet_cond (Search q)"
  by (simp_all add: fun_eq_iff)

lemma count_facet_eq: "count_facet db f = query_count db (facet_cond f)"
  by (cases f)
    (simp_all only: count_facet.simps countAll_def countByCategory_def countByLanguage_def
      countByAuthor_def countByTag_def countSearchResults_def Let_def facet_cond_eta)

lemma page_facet_eq:
  "page_facet eng db f page limit = query_page eng db (facet_cond f) limit ((page - 1) * limit)"
  by (cases f)
    (simp_all only: page_facet.simps findPaginated_def findPaginatedByCategory_def
      findPaginatedByLanguage_def findPaginatedByAuthor_def findPaginatedByTag_def search_def
      Let_def facet_cond_eta)

lemma left_join_nonempty: "left_join on tbl \<noteq> []"
  by (simp add: left_join_def split: list.splits)

lemma base_rows_snippets: "j_s ` set (BASE_SNIPPET_QUERY db) = set (snippets db)"
proof (intro equalityI subsetI)
  fix s assume "s \<in> j_s ` set (BASE_SNIPPET_QUERY db)"
  then show "s \<in> set (snippets db)"
    by (auto simp: BASE_SNIPPET_QUERY_def)
next
  fix s assume s: "s \<in> set (snippets db)"
  obtain c where c: "c \<in> set (left_join (\<lambda>c. Some (c_id c) = s_category_id s) (categories db))"
    using left_join_nonempty [of "\<lambda>c. Some (c_id c) = s_category_id s" "categories db"]
    by (metis last_in_set)
  obtain l where l: "l \<in> set (left_join (\<lambda>l. Some (l_id l) = s_language_id s) (languages db))"
    using left_join_nonempty [of "\<lambda>l. Some (l_id l) = s_language_id s" "languages db"]
    by (metis last_in_set)
  obtain u where u: "u \<in> set (left_join (\<lambda>u. Some (u_id u) = s_user_id s) (users db))"
    using left_join_nonempty [of "\<lambda>u. Some (u_id u) = s_user_id s" "users db"]
    by (metis last_in_set)
  have "\<lparr>j_s = s, j_c = c, j_l = l, j_u = u\<rparr> \<in> set (BASE_SNIPPET_QUERY db)"
    unfolding BASE_SNIPPET_QUERY_def using s c l u by auto
  then show "s \<in> j_s ` set (BASE_SNIPPET_QUERY db)"
    by force
qed

section \<open>Engines and slices\<close>


lemma contract_set: "order_by_contract eng \<Longrightarrow> set (eng rows) = set rows"
  by (metis order_by_contract_def set_mset_mset)

lemma engine_scan_order_contract: "order_by_contract engine_scan_order"
  unfolding order_by_contract_def engine_scan_order_def created_desc_def
proof (intro allI conjI)
  fix rows :: "joined list"
  show "mset (sort_key (\<lambda>j. - int (s_created_at (j_s j))) rows) = mset rows" by simp
  have "sorted (map (\<lambda>j. - int (s_created_at (j_s j))) (sort_key (\<lambda>j. - int (s_created_at (j_s j))) rows))"
    by (rule sorted_sort_key)
  then show "sorted_wrt (\<lambda>a b. s_created_at (j_s b) \<le> s_created_at (j_s a))
     (sort_key (\<lambda>j. - int (s_created_at (j_s j))) rows)"
    by (simp add: sorted_map)
qed










section \<open>The small catalog\<close>

lemma wf_catalog: "wf_db catalog"
  by (simp add: wf_db_def catalog_defs List.map_filter_def)

lemma search_foo:
  "count_facet catalog (Search ''foo'') = 1 \<and>
   map d_id (page_facet engine_scan_order catalog (Search ''foo'') 1 5) = [2]"
  by (simp add: facet_defs query_defs catalog_defs string_defs)



lemma hello_in_catalog:
  "hello \<in> set (snippets catalog) \<and> s_id hello = 1 \<and> s_slug hello = ''hello-world'' \<and>
   sd_title (titled ''Hello World'') = s_title hello"
  by (simp add: catalog_defs titled_def)

lemma mallory_is_foreign:
  "\<not> a_is_admin mallory_session \<and> s_user_id hello \<noteq> Some (a_id mallory_session)"
  by (simp add: mallory_session_def hello_def)

lemma slugify_hello: "slugify ''Hello World'' = ''hello-world''"
  by (simp add: string_defs)

lemma slugify_mine: "slugify ''Mine'' = ''mine''"
  by (simp add: string_defs)

lemma decimal_now: "decimal 1700000000123 = ''1700000000123''"
  by (simp add: decimal.simps digit_char_def)

lemma first_create: "create first_call empty_catalog (titled ''Hello World'') = Inr (1, once)"
  by (simp add: write_defs catalog_defs slugify_hello)

lemma second_create: "create second_call once (titled ''Hello World'') = Inr (2, twice)"
  by (simp add: write_defs catalog_defs slugify_hello decimal_now)

lemma private_request:
  "b_is_private private_body = Some 1 \<and>
   fst (createSnippet first_call catalog 1 private_body) = Status201 5 \<and>
   map s_is_private (snippets (snd (createSnippet first_call catalog 1 private_body))) =
     [0, 0, 1, 0, 0]"
  by (simp add: write_defs catalog_defs slugify_mine)

section \<open>Visibility of the facets\<close>

text \<open>
  Claim C1. For each of the six facets and every facet value, the count is the number of
  snippets that are visible (not private, owning user approved) and meet the facet's
  condition, and every row of every page is the row of such a snippet: neither the count nor
  a page includes a snippet that is private or whose owning user is not approved.
\<close>

theorem facets_exclude_hidden_snippets:
  assumes "wf_db db" and "order_by_contract eng"
  shows "count_facet db f = length (filter (\<lambda>s. visible db s \<and> in_facet db f s) (snippets db)) \<and>
         (\<forall>r \<in> set (page_facet eng db f page limit).
            \<exists>s \<in> set (snippets db). r = project (join_row db s) \<and> visible db s \<and> in_facet db f s)"
proof
  show "count_facet db f = length (filter (\<lambda>s. visible db s \<and> in_facet db f s) (snippets db))"
    by (simp add: count_facet_eq query_count_wf [OF assms(1)] selected_facet_eta)
  have "set (sql_limit_offset limit off rows) \<subseteq> set rows" for off and rows :: "joined list"
    by (auto simp: sql_limit_offset_def Let_def dest: in_set_takeD in_set_dropD)
  then have "set (page_facet eng db f page limit) \<subseteq>
      project ` set (query_ordered eng db (facet_cond f))"
    by (auto simp: page_facet_eq query_page_def)
  also have "\<dots> = project ` join_row db ` {s \<in> set (snippets db). visible db s \<and> in_facet db f s}"
    by (simp add: query_ordered_def contract_set [OF assms(2)] matching_wf [OF assms(1)]
        selected_facet_eta)
  finally show "\<forall>r \<in> set (page_facet eng db f page limit).
      \<exists>s \<in> set (snippets db). r = project (join_row db s) \<and> visible db s \<and> in_facet db f s"
    by auto
qed

text \<open>
  In the small catalog the search for \<open>foo\<close> counts and lists the public snippet whose
  description is \<open>foo\<close>, and not the private one whose description is \<open>foobar\<close>.
\<close>

theorem facets_exclude_hidden_snippets_witness:
  "wf_db catalog \<and> order_by_contract engine_scan_order \<and>
   count_facet catalog (Search ''foo'') = 1 \<and>
   map d_id (page_facet engine_scan_order catalog (Search ''foo'') 1 5) = [2] \<and>
   count_facet catalog (Search ''foo'') =
     length (filter (\<lambda>s. visible catalog s \<and> in_facet catalog (Search ''foo'') s) (snippets catalog))"
  using facets_exclude_hidden_snippets [OF wf_catalog engine_scan_order_contract, of "Search ''foo''" 1 5]
    wf_catalog engine_scan_order_contract search_foo
  by blast

section \<open>Lookup by slug or short id\<close>

text \<open>
  Claim C2, as amended. \<open>findByIdentifierWithDetail\<close> applies no visibility filter: it
  returns nothing exactly when no snippet, visible or not, has the identifier as its slug
  or its short id, and what it returns is the row of a snippet with that slug or short id,
  private or not.
\<close>

theorem findByIdentifier_ignores_visibility:
  "(findByIdentifierWithDetail db i = None \<longleftrightarrow>
      (\<forall>s \<in> set (snippets db). s_slug s \<noteq> i \<and> s_short_id s \<noteq> Some i)) \<and>
   (\<forall>r. findByIdentifierWithDetail db i = Some r \<longrightarrow>
      (\<exists>s \<in> set (snippets db). (s_slug s = i \<or> s_short_id s = Some i) \<and>
         d_id r = s_id s \<and> d_slug r = s_slug s \<and> d_is_private r = s_is_private s))"
proof -
  let ?hits = "filter (\<lambda>j. s_slug (j_s j) = i \<or> s_short_id (j_s j) = Some i)
                 (BASE_SNIPPET_QUERY db)"
  have none: "(findByIdentifierWithDetail db i = None) = (?hits = [])"
    by (simp add: findByIdentifierWithDetail_def split: list.splits)
  have "(?hits = []) = (\<forall>s \<in> j_s ` set (BASE_SNIPPET_QUERY db). s_slug s \<noteq> i \<and> s_short_id s \<noteq> Some i)"
    by (auto simp: filter_empty_conv)
  then have a: "(findByIdentifierWithDetail db i = None) =
      (\<forall>s \<in> set (snippets db). s_slug s \<noteq> i \<and> s_short_id s \<noteq> Some i)"
    by (simp only: none base_rows_snippets)
  have b: "\<exists>s \<in> set (snippets db). (s_slug s = i \<or> s_short_id s = Some i) \<and>
         d_id r = s_id s \<and> d_slug r = s_slug s \<and> d_is_private r = s_is_private s"
    if "findByIdentifierWithDetail db i = Some r" for r
  proof -
    from that obtain j js where h: "?hits = j # js" and r: "r = project j"
      by (auto simp: findByIdentifierWithDetail_def split: list.splits)
    from h have "j \<in> set ?hits" by simp
    then have j: "j \<in> set (BASE_SNIPPET_QUERY db)"
      and m: "s_slug (j_s j) = i \<or> s_short_id (j_s j) = Some i" by auto
    from j have "j_s j \<in> set (snippets db)"
      using base_rows_snippets [of db] by blast
    with m r show ?thesis
      by (intro bexI [of _ "j_s j"]) (simp_all add: project_def)
  qed
  from a b show ?thesis by blast
qed

text \<open>The lookups of \<open>secret\<close>, which is there and private, and of \<open>absent\<close>.\<close>

theorem findByIdentifier_ignores_visibility_witness:
  "secret \<in> set (snippets catalog) \<and> s_slug secret = ''secret'' \<and> s_is_private secret = 1 \<and>
   map_option d_is_private (findByIdentifierWithDetail catalog ''secret'') = Some 1 \<and>
   findByIdentifierWithDetail catalog ''absent'' = None"
  using findByIdentifier_ignores_visibility [of catalog "''secret''"]
    findByIdentifier_ignores_visibility [of catalog "''absent''"]
  by (simp add: findByIdentifierWithDetail_def query_defs catalog_defs)

text \<open>
  The private snippet of the small catalog is returned under its slug, and the snippet of
  the author who is not approved under its short id.
\<close>

theorem findByIdentifier_returns_hidden_counterexample:
  "secret \<in> set (snippets catalog) \<and> \<not> visible catalog secret \<and>
   map_option d_id (findByIdentifierWithDetail catalog ''secret'') = Some 3 \<and>
   pending \<in> set (snippets catalog) \<and> \<not> visible catalog pending \<and>
   map_option d_id (findByIdentifierWithDetail catalog ''p0Nd1nGx'') = Some 4"
  by (simp add: findByIdentifierWithDetail_def query_defs catalog_defs)

section \<open>Counts and pages\<close>






section \<open>Order of the rows\<close>




section \<open>Slugs\<close>

lemma create_result:
  assumes "create env db sd = Inr (i, db')"
  shows "\<exists>r. snippets db' = snippets db @ [r] \<and> s_title r = sd_title sd \<and>
           s_slug r = (if \<exists>s \<in> set (snippets db). s_slug s = slugify (sd_title sd)
                       then slugify (sd_title sd) @ ''-'' @ decimal (date_now env)
                       else slugify (sd_title sd)) \<and>
           s_slug r \<notin> s_slug ` set (snippets db)"
proof -
  define slug where
    "slug = (if \<exists>s \<in> set (snippets db). s_slug s = slugify (sd_title sd)
             then slugify (sd_title sd) @ ''-'' @ decimal (date_now env)
             else slugify (sd_title sd))"
  define row where
    "row = \<lparr>s_id = next_rowid db, s_title = sd_title sd, s_slug = slug,
      s_short_id = Some (uid_rnd env), s_description = sd_description sd,
      s_code = sd_code sd, s_tags = sd_tags sd, s_reference_url = sd_reference_url sd,
      s_category_id = or_null (sd_category_id sd), s_language_id = or_null (sd_language_id sd),
      s_user_id = sd_user_id sd,
      s_is_private = (case sd_is_private sd of None \<Rightarrow> 0 | Some p \<Rightarrow> p),
      s_created_at = current_timestamp env\<rparr>"
  define taken where
    "taken \<longleftrightarrow> (\<exists>s \<in> set (snippets db). s_slug s = slug \<or> s_short_id s = Some (uid_rnd env))"
  have c: "create env db sd =
      (if taken then Inl ConstraintFailed
       else Inr (next_rowid db, db\<lparr>snippets := snippets db @ [row], snippets_seq := next_rowid db\<rparr>))"
    unfolding create_def Let_def taken_def row_def slug_def by simp
  from assms have free: "\<not> taken"
    unfolding c by (cases taken) simp_all
  with assms have "db' = db\<lparr>snippets := snippets db @ [row], snippets_seq := next_rowid db\<rparr>"
    unfolding c by auto
  then have 1: "snippets db' = snippets db @ [row]" by simp
  have 2: "s_title row = sd_title sd" by (simp add: row_def)
  have 3: "s_slug row = slug" by (simp add: row_def)
  from free have 4: "s_slug row \<notin> s_slug ` set (snippets db)"
    unfolding taken_def 3 by blast
  from 1 2 3 4 show ?thesis
    unfolding slug_def by blast
qed

text \<open>
  Claim C6, as amended. A \<open>create\<close> that succeeds appends one snippet whose slug is
  \<open>slugify title\<close> (lower-case, trim, white space to hyphens, strip, collapse hyphens), or
  that candidate with \<open>-\<close> and \<^verbatim>\<open>Date.now()\<close> appended where a snippet already has the
  candidate as its slug; and a second successful \<open>create\<close> with the same title, right after
  it, gives a slug with that suffix, distinct from the first.
\<close>

theorem create_assigns_slug:
  assumes "create env1 db sd1 = Inr (i1, db1)"
  shows "\<exists>r1. snippets db1 = snippets db @ [r1] \<and>
           s_slug r1 = (if \<exists>s \<in> set (snippets db). s_slug s = slugify (sd_title sd1)
                        then slugify (sd_title sd1) @ ''-'' @ decimal (date_now env1)
                        else slugify (sd_title sd1)) \<and>
           (\<forall>env2 sd2 i2 db2.
              create env2 db1 sd2 = Inr (i2, db2) \<and> sd_title sd2 = sd_title sd1 \<longrightarrow>
              (\<exists>r2. snippets db2 = snippets db @ [r1, r2] \<and>
                 s_slug r2 = slugify (sd_title sd1) @ ''-'' @ decimal (date_now env2) \<and>
                 s_slug r2 \<noteq> s_slug r1))"
proof -
  from create_result [OF assms] obtain r1 where
    r1: "snippets db1 = snippets db @ [r1]"
    and s1: "s_slug r1 = (if \<exists>s \<in> set (snippets db). s_slug s = slugify (sd_title sd1)
                        then slugify (sd_title sd1) @ ''-'' @ decimal (date_now env1)
                        else slugify (sd_title sd1))"
    by blast
  have taken: "\<exists>s \<in> set (snippets db1). s_slug s = slugify (sd_title sd1)"
    using r1 s1 by (auto split: if_splits)
  have "\<exists>r2. snippets db2 = snippets db @ [r1, r2] \<and>
         s_slug r2 = slugify (sd_title sd1) @ ''-'' @ decimal (date_now env2) \<and>
         s_slug r2 \<noteq> s_slug r1"
    if c: "create env2 db1 sd2 = Inr (i2, db2)" and t: "sd_title sd2 = sd_title sd1"
    for env2 sd2 i2 db2
  proof -
    from create_result [OF c] obtain r2 where
      r2: "snippets db2 = snippets db1 @ [r2]"
      and s2: "s_slug r2 = (if \<exists>s \<in> set (snippets db1). s_slug s = slugify (sd_title sd2)
                        then slugify (sd_title sd2) @ ''-'' @ decimal (date_now env2)
                        else slugify (sd_title sd2))"
      and n2: "s_slug r2 \<notin> s_slug ` set (snippets db1)"
      by blast
    from n2 r1 have "s_slug r2 \<noteq> s_slug r1" by auto
    with r1 r2 s2 t taken show ?thesis by simp
  qed
  with r1 s1 show ?thesis by blast
qed

text \<open>
  \<open>Hello World\<close> created twice within one millisecond: the first slug is \<open>hello-world\<close>,
  the second carries the timestamp.
\<close>

theorem create_assigns_slug_witness:
  "create first_call empty_catalog (titled ''Hello World'') = Inr (1, once) \<and>
   create second_call once (titled ''Hello World'') = Inr (2, twice) \<and>
   map s_slug (snippets once) = [''hello-world''] \<and>
   last (map s_slug (snippets twice)) = ''hello-world-1700000000123''"
proof -
  from create_assigns_slug [OF first_create] obtain r1 where
    nxt: "\<forall>env2 sd2 i2 db2.
      create env2 once sd2 = Inr (i2, db2) \<and> sd_title sd2 = sd_title (titled ''Hello World'') \<longrightarrow>
      (\<exists>r2. snippets db2 = snippets empty_catalog @ [r1, r2] \<and>
         s_slug r2 = slugify (sd_title (titled ''Hello World'')) @ ''-'' @ decimal (date_now env2) \<and>
         s_slug r2 \<noteq> s_slug r1)"
    by blast
  from nxt second_create obtain r2 where
    "snippets twice = snippets empty_catalog @ [r1, r2]"
    "s_slug r2 = slugify (sd_title (titled ''Hello World'')) @ ''-'' @ decimal (date_now second_call)"
    by blast
  then have l: "last (map s_slug (snippets twice)) = ''hello-world-1700000000123''"
    by (simp add: titled_def second_call_def slugify_hello decimal_now)
  have o: "map s_slug (snippets once) = [''hello-world'']"
    by (simp add: write_defs catalog_defs slugify_hello)
  from first_create second_create o l show ?thesis by blast
qed

text \<open>
  A title with a leading space: \<open>create\<close> stores the slug \<open>a\<close>, where the wording without
  the trim gives \<open>-a\<close>.
\<close>

theorem create_slug_without_trim_counterexample:
  "map s_slug (snippets (after_call (create first_call empty_catalog (titled '' a'')))) = [''a''] \<and>
   spec_slug '' a'' = ''-a''"
  by (simp add: write_defs catalog_defs string_defs)

lemma distinct_key_eq:
  "distinct (map k xs) \<Longrightarrow> x \<in> set xs \<Longrightarrow> y \<in> set xs \<Longrightarrow> k x = k y \<Longrightarrow> x = y"
  by (auto simp: distinct_map dest: inj_onD)

lemma findById_member:
  assumes "wf_db db" and "s \<in> set (snippets db)"
  shows "findById db (s_id s) = Some s"
proof -
  from assms have "\<exists>t. find (\<lambda>t. s_id t = s_id s) (snippets db) = Some t"
    by (cases "find (\<lambda>t. s_id t = s_id s) (snippets db)") (auto simp: find_None_iff)
  then obtain t where t: "find (\<lambda>t. s_id t = s_id s) (snippets db) = Some t" ..
  then have "t \<in> set (snippets db)" and "s_id t = s_id s"
    by (auto simp: find_Some_iff)
  with assms have "t = s"
    by (auto simp: wf_db_def intro: distinct_key_eq [of s_id "snippets db"])
  with t show ?thesis by (simp add: findById_def)
qed

lemma find_map_key: "find P (map f xs) = map_option f (find (\<lambda>x. P (f x)) xs)"
  by (induction xs) auto

text \<open>
  Claim C7. For every existing snippet, an \<open>update\<close> whose title equals the stored title
  succeeds and leaves the slug of the snippet, and of every other snippet, unchanged.
\<close>

theorem update_same_title_keeps_slug:
  assumes "wf_db db" and "cur \<in> set (snippets db)" and "sd_title sd = s_title cur"
  shows "\<exists>n db' cur'. update env db (s_id cur) a sd = Inr (n, db') \<and>
           findById db' (s_id cur) = Some cur' \<and> s_slug cur' = s_slug cur \<and>
           map s_slug (snippets db') = map s_slug (snippets db)"
proof -
  let ?upd = "\<lambda>t. t\<lparr>s_title := sd_title sd, s_description := sd_description sd,
      s_code := sd_code sd, s_tags := sd_tags sd, s_category_id := or_null (sd_category_id sd),
      s_reference_url := sd_reference_url sd, s_language_id := or_null (sd_language_id sd),
      s_slug := s_slug cur,
      s_is_private := (case sd_is_private sd of None \<Rightarrow> 0 | Some p \<Rightarrow> p)\<rparr>"
  let ?rows = "map (\<lambda>t. if reaches (s_id cur) a t then ?upd t else t) (snippets db)"
  have same: "t = cur" if "t \<in> set (snippets db)" and "s_id t = s_id cur" for t
    using assms(1,2) that by (auto simp: wf_db_def intro: distinct_key_eq [of s_id "snippets db"])
  have free: "\<not> (\<exists>t \<in> set (snippets db). s_id t \<noteq> s_id cur \<and> s_slug t = s_slug cur)"
    using assms(1,2) by (auto simp: wf_db_def dest: distinct_key_eq [of s_slug "snippets db"])
  have u: "update env db (s_id cur) a sd =
      Inr (length (filter (reaches (s_id cur) a) (snippets db)), db\<lparr>snippets := ?rows\<rparr>)"
    using free by (simp add: update_def findById_member [OF assms(1,2)] assms(3) Let_def)
  have slugs: "map s_slug ?rows = map s_slug (snippets db)"
    using same by (auto simp: reaches_def)
  have ids: "map s_id ?rows = map s_id (snippets db)"
    by auto
  have "find (\<lambda>t. s_id t = s_id cur) ?rows =
      map_option (\<lambda>t. if reaches (s_id cur) a t then ?upd t else t)
        (find (\<lambda>t. s_id t = s_id cur) (snippets db))"
    by (simp add: find_map_key if_distrib [of s_id] cong: if_cong)
  also have "find (\<lambda>t. s_id t = s_id cur) (snippets db) = Some cur"
    using findById_member [OF assms(1,2)] by (simp add: findById_def)
  finally have "findById (db\<lparr>snippets := ?rows\<rparr>) (s_id cur) =
      Some (if reaches (s_id cur) a cur then ?upd cur else cur)"
    by (simp add: findById_def)
  with u slugs show ?thesis by auto
qed

text \<open>The owner saves \<open>Hello World\<close> with its title unchanged.\<close>

theorem update_same_title_keeps_slug_witness:
  "wf_db catalog \<and> hello \<in> set (snippets catalog) \<and>
   sd_title (titled ''Hello World'') = s_title hello \<and>
   (\<exists>n db' cur'.
      update first_call catalog (s_id hello) alice_session (titled ''Hello World'') = Inr (n, db') \<and>
      findById db' (s_id hello) = Some cur' \<and> s_slug cur' = ''hello-world'')"
proof -
  have h: "hello \<in> set (snippets catalog)" and t: "sd_title (titled ''Hello World'') = s_title hello"
    and s: "s_slug hello = ''hello-world''"
    using hello_in_catalog by simp_all
  from update_same_title_keeps_slug [OF wf_catalog h t, of first_call alice_session]
    wf_catalog h t
  show ?thesis unfolding s by blast
qed

section \<open>Ownership\<close>

text \<open>
  Claim C8. For every snippet and every acting user who is not an admin and whose id differs
  from the snippet's \<open>user_id\<close>, \<open>update\<close> and \<open>remove\<close> on that snippet change zero rows
  and leave the database as it was.
\<close>

theorem foreign_mutation_changes_nothing:
  assumes "wf_db db" and "s \<in> set (snippets db)"
    and "\<not> a_is_admin a" and "s_user_id s \<noteq> Some (a_id a)"
  shows "update env db (s_id s) a sd = Inr (0, db) \<and> remove db (s_id s) a = (0, db)"
proof -
  have no: "\<not> reaches (s_id s) a t" if "t \<in> set (snippets db)" for t
  proof
    assume r: "reaches (s_id s) a t"
    then have "s_id t = s_id s" by (simp add: reaches_def)
    with assms(1,2) that have "t = s"
      by (auto simp: wf_db_def intro: distinct_key_eq [of s_id "snippets db"])
    with r assms(3,4) show False by (simp add: reaches_def)
  qed
  then have f: "filter (reaches (s_id s) a) (snippets db) = []"
    by (simp add: filter_empty_conv)
  have m: "map (\<lambda>t. if reaches (s_id s) a t then g t else t) (snippets db) = snippets db" for g
    using no by (simp add: map_idI)
  have k: "filter (\<lambda>t. \<not> reaches (s_id s) a t) (snippets db) = snippets db"
    using no by (simp add: filter_id_conv)
  show ?thesis
    by (simp add: update_def remove_def findById_member [OF assms(1,2)] f m k Let_def)
qed

text \<open>The other author, who is no admin, tries to update and to delete \<open>Hello World\<close>.\<close>

theorem foreign_mutation_changes_nothing_witness:
  "wf_db catalog \<and> hello \<in> set (snippets catalog) \<and> \<not> a_is_admin mallory_session \<and>
   s_user_id hello \<noteq> Some (a_id mallory_session) \<and>
   update first_call catalog (s_id hello) mallory_session (titled ''Taken'') = Inr (0, catalog) \<and>
   remove catalog (s_id hello) mallory_session = (0, catalog)"
proof -
  have h: "hello \<in> set (snippets catalog)" using hello_in_catalog by simp
  have a: "\<not> a_is_admin mallory_session" and o: "s_user_id hello \<noteq> Some (a_id mallory_session)"
    using mallory_is_foreign by simp_all
  from foreign_mutation_changes_nothing [OF wf_catalog h a o, of first_call "titled ''Taken''"]
    wf_catalog h a o
  show ?thesis by blast
qed

section \<open>The tag index\<close>

text \<open>
  Where no tag is a name that a plain object inherits, \<open>findAllTags\<close> returns what the
  specification words: the tally holds a number for every token, and its sorted keys are the
  sorted distinct tokens.
\<close>

lemma map_of_replace:
  "map_of (map (\<lambda>(k', v'). if k' = k then (k', v) else (k', v')) obj) x =
   (if x = k \<and> k \<in> fst ` set obj then Some v else map_of obj x)"
proof (induction obj)
  case Nil
  then show ?case by simp
next
  case (Cons p obj)
  obtain k' v' where p: "p = (k', v')" by (cases p)
  show ?case
  proof (cases "k' = k")
    case True
    with p Cons.IH show ?thesis by simp
  next
    case False
    with p Cons.IH show ?thesis by (cases "x = k") simp_all
  qed
qed

lemma map_of_js_set:
  assumes "k \<noteq> ''__proto__''"
  shows "map_of (js_set obj k v) = (map_of obj)(k \<mapsto> v)"
proof (rule ext)
  fix x
  show "map_of (js_set obj k v) x = ((map_of obj)(k \<mapsto> v)) x"
  proof (cases "k \<in> fst ` set obj")
    case True
    then show ?thesis
      using assms by (simp add: js_set_def map_of_replace)
  next
    case False
    then have "map_of obj k = None" by (simp add: map_of_eq_None_iff)
    with False show ?thesis
      using assms by (simp add: js_set_def map_add_def split: option.splits)
  qed
qed

lemma keys_js_set:
  "k \<noteq> ''__proto__'' \<Longrightarrow>
   map fst (js_set obj k v) = (if k \<in> set (map fst obj) then map fst obj else map fst obj @ [k])"
  by (auto simp: js_set_def comp_def case_prod_unfold if_distrib cong: if_cong)

lemma bump_tally:
  assumes "tally obj seen" and "t \<notin> set prototype_names"
  shows "tally (bump t obj) (seen @ [t])"
proof -
  from assms(2) have p: "t \<noteq> ''__proto__''" "t \<noteq> ''constructor''" "t \<notin> set object_prototype_methods"
    by (auto simp: prototype_names_def)
  have v: "plus_one (or_zero (js_get obj t)) = JNum (count_list seen t + 1)"
  proof (cases "t \<in> set seen")
    case True
    with assms(1) have "map_of obj t = Some (JNum (count_list seen t))" by (simp add: tally_def)
    then show ?thesis by (simp add: js_get_def or_zero_def plus_one_def)
  next
    case False
    with assms(1) have "map_of obj t = None"
      by (simp add: tally_def map_of_eq_None_iff)
    with False p show ?thesis by (simp add: js_get_def or_zero_def plus_one_def)
  qed
  have m: "map_of (bump t obj) = (map_of obj)(t \<mapsto> JNum (count_list seen t + 1))"
    by (simp add: bump_def map_of_js_set [OF p(1)] v)
  have k: "map fst (bump t obj) = (if t \<in> set (map fst obj) then map fst obj else map fst obj @ [t])"
    by (simp add: bump_def keys_js_set [OF p(1)])
  from assms(1) show ?thesis
    unfolding tally_def m k by auto
qed

lemma fold_bump_tally:
  "tally obj seen \<Longrightarrow> \<forall>t \<in> set toks. t \<notin> set prototype_names \<Longrightarrow>
   tally (fold bump toks obj) (seen @ toks)"
proof (induction toks arbitrary: obj seen)
  case Nil
  then show ?case by simp
next
  case (Cons t toks)
  from Cons.prems have "tally (bump t obj) (seen @ [t])" by (simp add: bump_tally)
  from Cons.IH [OF this] Cons.prems(2) show ?case by simp
qed

lemma fold_count_tag:
  "fold count_tag pieces obj = fold bump (filter (\<lambda>t. t \<noteq> []) (map trim pieces)) obj"
  by (induction pieces arbitrary: obj) (simp_all add: count_tag_def bump_def Let_def)

lemma fold_rows:
  "fold (\<lambda>row. fold count_tag (split_comma row)) rows obj =
   fold bump (concat (map (\<lambda>row. filter (\<lambda>t. t \<noteq> []) (map trim (split_comma row))) rows)) obj"
  by (induction rows arbitrary: obj) (simp_all add: fold_count_tag)

lemma tag_rows_wf:
  assumes "distinct (map u_id us)"
  shows "List.map_filter (\<lambda>(s, u). if P s u \<and> s_tags s \<noteq> None \<and> s_tags s \<noteq> Some [] then s_tags s else None)
      (concat (map (\<lambda>s. map (\<lambda>u. (s, u)) (filter (\<lambda>u. Some (u_id u) = s_user_id s) us)) ss)) =
    List.map_filter (\<lambda>s. if (case find (\<lambda>u. Some (u_id u) = s_user_id s) us of None \<Rightarrow> False | Some u \<Rightarrow> P s u)
        \<and> s_tags s \<noteq> None \<and> s_tags s \<noteq> Some [] then s_tags s else None) ss"
  by (induction ss) (auto simp: List.map_filter_def filter_key_find [OF assms] split: option.splits)

lemma trim_Nil: "trim [] = []"
  by (simp add: trim_def)

lemma tokens_of_rows:
  "concat (map (\<lambda>row. filter (\<lambda>t. t \<noteq> []) (map trim (split_comma row)))
     (List.map_filter (\<lambda>s. if visible db s \<and> s_tags s \<noteq> None \<and> s_tags s \<noteq> Some [] then s_tags s else None) ss)) =
   concat (map (\<lambda>s. case s_tags s of None \<Rightarrow> [] | Some tags \<Rightarrow> filter (\<lambda>t. t \<noteq> []) (map trim (split_comma tags)))
     (filter (visible db) ss))"
  by (induction ss) (auto simp: map_filter_simps trim_Nil split: option.splits)

lemma findAllTags_off_prototype:
  assumes "wf_db db" and "\<forall>t \<in> set (tag_tokens db). t \<notin> set prototype_names"
  shows "findAllTags db = spec_tag_index db"
proof -
  from assms(1) have d: "distinct (map u_id (users db))" by (simp add: wf_db_def)
  define obj where "obj = fold bump (tag_tokens db) []"
  have rows: "List.map_filter
      (\<lambda>(s, u). if PUBLIC_FILTER s u \<and> s_tags s \<noteq> None \<and> s_tags s \<noteq> Some [] then s_tags s else None)
      (snippets_join_users db) =
    List.map_filter (\<lambda>s. if visible db s \<and> s_tags s \<noteq> None \<and> s_tags s \<noteq> Some [] then s_tags s else None)
      (snippets db)"
    unfolding snippets_join_users_def tag_rows_wf [OF d]
    by (rule arg_cong [where f = "\<lambda>f. List.map_filter f (snippets db)"])
      (auto simp: fun_eq_iff visible_def owner_def PUBLIC_FILTER_def split: option.splits)
  have f: "findAllTags db =
      map (\<lambda>tag. \<lparr>t_name = tag, t_count = js_get obj tag\<rparr>) (sort (map fst obj))"
    unfolding findAllTags_def Let_def rows fold_rows tokens_of_rows obj_def tag_tokens_def ..
  have "tally [] []" by (simp add: tally_def)
  from fold_bump_tally [OF this assms(2)] have t: "tally obj (tag_tokens db)"
    by (simp add: obj_def)
  then have "sort (map fst obj) = sort (remdups (tag_tokens db))"
    by (intro sorted_distinct_set_unique) (simp_all add: tally_def)
  moreover have "js_get obj n = JNum (count_list (tag_tokens db) n)"
    if "n \<in> set (tag_tokens db)" for n
    using t that by (simp add: tally_def js_get_def)
  ultimately show ?thesis
    by (simp add: f spec_tag_index_def)
qed

text \<open>
  Claim C9. \<open>findAllTags\<close> is to return the tag names of the visible snippets, each with the
  number of its occurrences. For a visible snippet tagged \<open>constructor\<close> it returns, in
  place of the count 1, the text of \<^verbatim>\<open>Object.prototype.constructor\<close> with \<open>1\<close> appended.
\<close>

theorem findAllTags_constructor_tag:
  "findAllTags ctor_catalog =
     [\<lparr>t_name = ''constructor'', t_count = JStr ''function Object() { [native code] }1''\<rparr>] \<and>
   spec_tag_index ctor_catalog = [\<lparr>t_name = ''constructor'', t_count = JNum 1\<rparr>]"
  by (simp add: tag_defs query_defs catalog_defs string_defs)

text \<open>
  The tags \<open>cli, script, cli\<close> and \<open>cli\<close> of the two visible snippets of the small catalog
  give \<open>cli: 3\<close> and \<open>script: 1\<close>; the tags of the private snippet and of the author who is
  not approved do not show.
\<close>

lemma findAllTags_scenario:
  "findAllTags catalog =
     [\<lparr>t_name = ''cli'', t_count = JNum 3\<rparr>, \<lparr>t_name = ''script'', t_count = JNum 1\<rparr>]"
  by (simp add: tag_defs query_defs catalog_defs string_defs)

section \<open>Snippets created through the API\<close>

text \<open>
  Claim C10. Whatever the body of the request holds, a snippet that \<open>createSnippet\<close> of the
  API controller adds is stored with \<open>is_private = 0\<close>.
\<close>

theorem api_create_is_public:
  assumes "createSnippet env db userId body = (resp, db')"
  shows "(\<forall>i. resp = Status201 i \<longrightarrow>
            (\<exists>row. snippets db' = snippets db @ [row] \<and> s_id row = i \<and> s_is_private row = 0)) \<and>
         (\<forall>s \<in> set (snippets db'). s \<notin> set (snippets db) \<longrightarrow> s_is_private s = 0)"
  using assms
  by (auto simp: createSnippet_def create_def Let_def split: option.splits if_splits sum.splits prod.splits)

text \<open>A request whose body carries \<open>is_private = 1\<close>: the new row is public.\<close>

theorem api_create_is_public_witness:
  "b_is_private private_body = Some 1 \<and>
   fst (createSnippet first_call catalog 1 private_body) = Status201 5 \<and>
   map s_is_private (snippets (snd (createSnippet first_call catalog 1 private_body))) =
     [0, 0, 1, 0, 0] \<and>
   (\<exists>row. snippets (snd (createSnippet first_call catalog 1 private_body)) =
      snippets catalog @ [row] \<and> s_id row = 5 \<and> s_is_private row = 0)"
proof -
  have r: "fst (createSnippet first_call catalog 1 private_body) = Status201 5"
    using private_request by simp
  have "createSnippet first_call catalog 1 private_body =
      (fst (createSnippet first_call catalog 1 private_body),
       snd (createSnippet first_call catalog 1 private_body))"
    by simp
  from api_create_is_public [OF this] r private_request
  show ?thesis by blast
qed

end
